theory Spec2Isabelle
  imports Complex_Main "HOL-Library.Word"
begin

section \<open>Exceptions\<close>

text \<open>
  The program defines no exception class of its own.  What it can raise comes from the
  interpreter (\<^verbatim>\<open>//\<close> by zero) and from the socket and screen-capture libraries
  (\<^verbatim>\<open>OSError\<close> and its subclasses).
\<close>

datatype exn =
    ZeroDivisionError
  | ConnectionRefusedError
  | BrokenPipeError
  | TimeoutError
  | OSError

section \<open>ScreenController.calculate_average_rgb\<close>

text \<open>
  The argument is what \<^verbatim>\<open>Image.getcolors\<close> returns: a list of
  \<^verbatim>\<open>(count, (r, g, b))\<close> entries, one per distinct colour.  Python integers are
  unbounded, hence \<^typ>\<open>int\<close>.
\<close>

type_synonym rgb = "int \<times> int \<times> int"
type_synonym color_counts = "(int \<times> rgb) list"

text \<open>Python's \<^verbatim>\<open>a // b\<close> on integers: floor division, raising on a zero divisor.\<close>

definition floordiv :: "int \<Rightarrow> int \<Rightarrow> exn + int" where
  "floordiv a b = (if b = 0 then Inl ZeroDivisionError else Inr (a div b))"

text \<open>
  The \<^verbatim>\<open>for _, (r, g, b) in colors\<close> loop, with the three accumulators as the state.
  The count component of each entry is bound to \<^verbatim>\<open>_\<close> and never read.
\<close>

fun accumulate :: "color_counts \<Rightarrow> int \<times> int \<times> int \<Rightarrow> int \<times> int \<times> int" where
  "accumulate [] acc = acc"
| "accumulate ((_, (r, g, b)) # colors) (avg_red, avg_green, avg_blue) =
     accumulate colors (avg_red + r, avg_green + g, avg_blue + b)"

definition calculate_average_rgb :: "color_counts \<Rightarrow> exn + rgb" where
  "calculate_average_rgb colors =
     (let pixels_count = int (length colors);
          (avg_red, avg_green, avg_blue) = accumulate colors (0, 0, 0)
      in case floordiv avg_red pixels_count of
           Inl e \<Rightarrow> Inl e
         | Inr red \<Rightarrow>
             (case floordiv avg_green pixels_count of
                Inl e \<Rightarrow> Inl e
              | Inr green \<Rightarrow>
                  (case floordiv avg_blue pixels_count of
                     Inl e \<Rightarrow> Inl e
                   | Inr blue \<Rightarrow> Inr (red, green, blue))))"

section \<open>The interpreter state and the observable effects\<close>

text \<open>
  Bytes are 8-bit words.  A Python \<^verbatim>\<open>str\<close> is modelled as a \<^typ>\<open>string\<close> whose
  characters are the code points below 256; every string the program itself supplies (method
  names, the effect name) is ASCII.
\<close>

type_synonym byte = "8 word"

text \<open>
  What the program does to the outside, in the order it does it: the socket calls of
  \<open>LampController\<close>, the screen grab, the debug log line and the sleep of the loop.
\<close>

datatype event =
    Socket
  | Connect string int
  | Send "byte list"
  | Close
  | Screenshot
  | LogDebug int
  | Sleep real

text \<open>
  \<open>next_id\<close> is the class attribute \<^verbatim>\<open>CommandPayload._next_id\<close>, shared by the whole
  process; \<open>trace\<close> collects the events.
\<close>

record world =
  next_id :: int
  trace :: "event list"

definition emit :: "event list \<Rightarrow> world \<Rightarrow> world" where
  "emit es w = w\<lparr>trace := trace w @ es\<rparr>"

text \<open>The state at interpreter start: the field default \<^verbatim>\<open>default=-1\<close>, nothing done yet.\<close>

definition initial_world :: world where
  "initial_world = \<lparr>next_id = - 1, trace = []\<rparr>"

section \<open>CommandPayload\<close>

datatype param = PInt int | PStr string

record CommandPayload =
  id' :: int
  "method" :: string
  params :: "param list"

text \<open>
  Construction: \<^verbatim>\<open>__new__\<close> increments the class counter, then the generated
  \<^verbatim>\<open>__init__\<close> calls the default factory of \<^verbatim>\<open>id\<close>, which reads the counter, and stores
  the two arguments.  \<^verbatim>\<open>_next_id\<close> has \<^verbatim>\<open>init=False\<close> and a plain default, so
  \<^verbatim>\<open>__init__\<close> does not assign it: on an instance it reads the class attribute.
\<close>

definition new_CommandPayload :: "string \<Rightarrow> param list \<Rightarrow> world \<Rightarrow> CommandPayload \<times> world" where
  "new_CommandPayload m ps w =
     (let w' = w\<lparr>next_id := next_id w + 1\<rparr>
      in (\<lparr>id' = next_id w', method = m, params = ps\<rparr>, w'))"

text \<open>\<^verbatim>\<open>lru_cache\<close> only memoises a pure function; the model is the function.\<close>

definition convert_rgb :: "int \<Rightarrow> int \<Rightarrow> int \<Rightarrow> int" where
  "convert_rgb r g b = (r * 65536) + (g * 256) + b"

text \<open>
  The two builders.  The keyword arguments \<^verbatim>\<open>effect="smooth"\<close> and
  \<^verbatim>\<open>duration=500\<close> are explicit arguments here; every caller in the program passes the
  defaults.
\<close>

definition bg_set_rgb :: "int \<Rightarrow> int \<Rightarrow> int \<Rightarrow> string \<Rightarrow> int \<Rightarrow> world \<Rightarrow> CommandPayload \<times> world" where
  "bg_set_rgb r g b effect duration w =
     new_CommandPayload ''bg_set_rgb'' [PInt (convert_rgb r g b), PStr effect, PInt duration] w"

definition bg_set_bright :: "int \<Rightarrow> string \<Rightarrow> int \<Rightarrow> world \<Rightarrow> CommandPayload \<times> world" where
  "bg_set_bright v effect duration w =
     new_CommandPayload ''bg_set_bright'' [PInt v, PStr effect, PInt duration] w"

text \<open>A sequence of constructions through the builders, each threading the counter.\<close>

datatype builder_call =
    Call_bg_set_rgb int int int string int
  | Call_bg_set_bright int string int

fun build :: "builder_call \<Rightarrow> world \<Rightarrow> CommandPayload \<times> world" where
  "build (Call_bg_set_rgb r g b effect duration) w = bg_set_rgb r g b effect duration w"
| "build (Call_bg_set_bright v effect duration) w = bg_set_bright v effect duration w"

fun build_all :: "builder_call list \<Rightarrow> world \<Rightarrow> CommandPayload list \<times> world" where
  "build_all [] w = ([], w)"
| "build_all (c # cs) w =
     (let (p, w1) = build c w; (ps, w2) = build_all cs w1 in (p # ps, w2))"

section \<open>Serialisation: asdict, json.dumps, str.encode\<close>

datatype json = JInt int | JStr string | JList "json list" | JDict "(string \<times> json) list"

text \<open>
  \<^verbatim>\<open>dataclasses.asdict\<close> walks \<^verbatim>\<open>fields(self)\<close> in declaration order and reads each
  with \<^verbatim>\<open>getattr\<close>.  The class declares four annotated fields: \<^verbatim>\<open>id\<close>,
  \<^verbatim>\<open>method\<close>, \<^verbatim>\<open>params\<close> and \<^verbatim>\<open>_next_id\<close>; the flags of the last one
  (\<^verbatim>\<open>repr\<close>, \<^verbatim>\<open>init\<close>, \<^verbatim>\<open>hash\<close>, \<^verbatim>\<open>compare\<close>) do not take it out of
  \<^verbatim>\<open>fields\<close>, and its value on the instance is the class counter at the time of the
  call.
\<close>

fun param_json :: "param \<Rightarrow> json" where
  "param_json (PInt i) = JInt i"
| "param_json (PStr s) = JStr s"

definition asdict :: "CommandPayload \<Rightarrow> world \<Rightarrow> (string \<times> json) list" where
  "asdict c w =
     [(''id'', JInt (id' c)),
      (''method'', JStr (method c)),
      (''params'', JList (map param_json (params c))),
      (''_next_id'', JInt (next_id w))]"

text \<open>\<^verbatim>\<open>str(int)\<close>: decimal digits, a minus sign for negatives.\<close>

fun digits :: "nat \<Rightarrow> string" where
  "digits n =
     (if n < 10 then [char_of (48 + n)]
      else digits (n div 10) @ [char_of (48 + n mod 10)])"

declare digits.simps [simp del]

definition str_int :: "int \<Rightarrow> string" where
  "str_int i = (if i < 0 then CHR ''-'' # digits (nat (- i)) else digits (nat i))"

text \<open>\<^verbatim>\<open>sep.join(parts)\<close>.\<close>

fun join :: "string \<Rightarrow> string list \<Rightarrow> string" where
  "join sep [] = []"
| "join sep [x] = x"
| "join sep (x # y # ys) = x @ sep @ join sep (y # ys)"

text \<open>
  String literals as \<^verbatim>\<open>json.dumps\<close> writes them with its default
  \<^verbatim>\<open>ensure_ascii=True\<close>: the quote and the backslash are escaped, the usual control
  characters get their short escapes, every other character outside the printable ASCII
  range becomes \<^verbatim>\<open>\u00xx\<close>.
\<close>

definition hex_digit :: "nat \<Rightarrow> char" where
  "hex_digit d = (if d < 10 then char_of (48 + d) else char_of (87 + d))"

definition escape_char :: "char \<Rightarrow> string" where
  "escape_char c =
     (if c = CHR 0x22 then [CHR 0x5C, CHR 0x22]
      else if c = CHR 0x5C then [CHR 0x5C, CHR 0x5C]
      else if c = CHR 0x0A then [CHR 0x5C, CHR ''n'']
      else if c = CHR 0x0D then [CHR 0x5C, CHR ''r'']
      else if c = CHR 0x09 then [CHR 0x5C, CHR ''t'']
      else if c = CHR 0x0C then [CHR 0x5C, CHR ''f'']
      else if c = CHR 0x08 then [CHR 0x5C, CHR ''b'']
      else if 32 \<le> (of_char c :: nat) \<and> (of_char c :: nat) \<le> 126 then [c]
      else [CHR 0x5C, CHR ''u'', CHR ''0'', CHR ''0'',
            hex_digit (of_char c div 16), hex_digit (of_char c mod 16)])"

definition quoted :: "string \<Rightarrow> string" where
  "quoted s = [CHR 0x22] @ s @ [CHR 0x22]"

definition encode_basestring_ascii :: "string \<Rightarrow> string" where
  "encode_basestring_ascii s = quoted (concat (map escape_char s))"

text \<open>
  \<^verbatim>\<open>json.dumps\<close> with its default separators \<^verbatim>\<open>", "\<close> and \<^verbatim>\<open>": "\<close>; a dict is
  written in insertion order.
\<close>

fun dumps :: "json \<Rightarrow> string" where
  "dumps (JInt i) = str_int i"
| "dumps (JStr s) = encode_basestring_ascii s"
| "dumps (JList xs) = ''['' @ join '', '' (map dumps xs) @ '']''"
| "dumps (JDict kvs) =
     ''{'' @ join '', '' (map (\<lambda>(k, v). encode_basestring_ascii k @ '': '' @ dumps v) kvs) @ ''}''"

text \<open>\<^verbatim>\<open>str.encode(encoding="utf-8")\<close> on code points below 256.\<close>

definition encode_utf8 :: "string \<Rightarrow> byte list" where
  "encode_utf8 s =
     concat (map (\<lambda>c. let n = (of_char c :: nat)
                      in if n < 128 then [of_nat n]
                         else [of_nat (192 + n div 64), of_nat (128 + n mod 64)]) s)"

definition as_bytes :: "CommandPayload \<Rightarrow> world \<Rightarrow> byte list" where
  "as_bytes c w = encode_utf8 (dumps (JDict (asdict c w)) @ [CHR 0x0D, CHR 0x0A])"

section \<open>LampController\<close>

record LampController =
  ip :: string
  port :: int

text \<open>
  What the network does to one connection is an input of the model: the connect is
  refused, or it succeeds and the single \<^verbatim>\<open>send\<close> call raises, or the single
  \<^verbatim>\<open>send\<close> call returns after the kernel took at most \<open>n\<close> bytes.
\<close>

datatype net_outcome =
    ConnectRaises exn
  | SendRaises exn
  | SendTakes nat

text \<open>
  The context manager \<^verbatim>\<open>send\<close>, in its two halves.  \<open>send_enter\<close> is the generator up
  to the \<^verbatim>\<open>yield\<close>: the socket is created and \<^verbatim>\<open>connect\<close> is called, both before the
  \<^verbatim>\<open>try\<close>.  \<open>send_exit\<close> is the \<^verbatim>\<open>finally\<close> block; it runs only when the generator
  had reached the \<^verbatim>\<open>yield\<close>.
\<close>

definition send_enter :: "LampController \<Rightarrow> net_outcome \<Rightarrow> world \<Rightarrow> (exn + unit) \<times> world" where
  "send_enter lamp out w =
     (let w1 = emit [Socket, Connect (ip lamp) (port lamp)] w
      in case out of
           ConnectRaises e \<Rightarrow> (Inl e, w1)
         | _ \<Rightarrow> (Inr (), w1))"

definition send_exit :: "world \<Rightarrow> world" where
  "send_exit w = emit [Close] w"

text \<open>
  \<^verbatim>\<open>tcp_socket.send(data)\<close>: one call, returning how many bytes were taken, which is
  never more than was offered.  The last case is not reached through \<open>send_command\<close>,
  which has left in \<open>send_enter\<close> by then.
\<close>

definition socket_send :: "byte list \<Rightarrow> net_outcome \<Rightarrow> world \<Rightarrow> (exn + int) \<times> world" where
  "socket_send data out w =
     (let w1 = emit [Send data] w
      in case out of
           SendTakes n \<Rightarrow> (Inr (int (min n (length data))), w1)
         | SendRaises e \<Rightarrow> (Inl e, w1)
         | ConnectRaises e \<Rightarrow> (Inl e, w1))"

definition send_command :: "LampController \<Rightarrow> CommandPayload \<Rightarrow> net_outcome \<Rightarrow> world \<Rightarrow> (exn + int) \<times> world" where
  "send_command lamp payload out w =
     (case send_enter lamp out w of
        (Inl e, w1) \<Rightarrow> (Inl e, w1)
      | (Inr _, w1) \<Rightarrow>
          (let (r, w2) = socket_send (as_bytes payload w1) out w1
           in (r, send_exit w2)))"

section \<open>Ambilight\<close>

record Ambilight =
  running :: bool
  lamp_controller :: LampController
  refresh_rate :: real

definition set_brightness :: "Ambilight \<Rightarrow> int \<Rightarrow> net_outcome \<Rightarrow> world \<Rightarrow> (exn + int) \<times> world" where
  "set_brightness a v out w =
     (let (command, w1) = bg_set_bright v ''smooth'' 500 w
      in send_command (lamp_controller a) command out w1)"

text \<open>
  \<^verbatim>\<open>__init__\<close>: the fields are set, then \<open>set_brightness\<close> is called with nothing
  around it; when it raises, no object is returned.
\<close>

definition Ambilight_init :: "LampController \<Rightarrow> real \<Rightarrow> int \<Rightarrow> net_outcome \<Rightarrow> world \<Rightarrow> (exn + Ambilight) \<times> world" where
  "Ambilight_init lamp rate initial_brightness out w =
     (let a = \<lparr>running = False, lamp_controller = lamp, refresh_rate = rate\<rparr>
      in case set_brightness a initial_brightness out w of
           (Inl e, w1) \<Rightarrow> (Inl e, w1)
         | (Inr _, w1) \<Rightarrow> (Inr a, w1))"

text \<open>
  \<open>get_color\<close>: the screen grab and \<^verbatim>\<open>getcolors\<close> are the platform's; their result (a
  list of colour counts, or an exception) is an input.
\<close>

definition get_color :: "exn + color_counts \<Rightarrow> world \<Rightarrow> (exn + rgb) \<times> world" where
  "get_color screen_colors w =
     (let w1 = emit [Screenshot] w
      in case screen_colors of
           Inl e \<Rightarrow> (Inl e, w1)
         | Inr colors \<Rightarrow> (calculate_average_rgb colors, w1))"

definition send_set_color_command :: "Ambilight \<Rightarrow> rgb \<Rightarrow> net_outcome \<Rightarrow> world \<Rightarrow> (exn + int) \<times> world" where
  "send_set_color_command a color out w =
     (case color of (r, g, b) \<Rightarrow>
        (let (command, w1) = bg_set_rgb r g b ''smooth'' 500 w
         in send_command (lamp_controller a) command out w1))"

text \<open>
  What one pass through the loop body meets: whether the controlling thread has called
  \<open>stop\<close> by the time the loop condition is read, the two clock readings, the screen
  content and the network's answer.
\<close>

record cycle_env =
  stop_called :: bool
  t_start :: real
  screen :: "exn + color_counts"
  net :: net_outcome
  t_end :: real

text \<open>The body of the \<^verbatim>\<open>while\<close> loop.  Nothing in it catches an exception.\<close>

definition cycle :: "Ambilight \<Rightarrow> cycle_env \<Rightarrow> world \<Rightarrow> (exn + unit) \<times> world" where
  "cycle a c w =
     (case get_color (screen c) w of
        (Inl e, w1) \<Rightarrow> (Inl e, w1)
      | (Inr color, w1) \<Rightarrow>
          (case send_set_color_command a color (net c) w1 of
             (Inl e, w2) \<Rightarrow> (Inl e, w2)
           | (Inr ret, w2) \<Rightarrow>
               (let w3 = emit [LogDebug ret] w2;
                    delta = t_end c - t_start c
                in if delta < refresh_rate a
                   then (Inr (), emit [Sleep (refresh_rate a - delta)] w3)
                   else (Inr (), w3))))"

definition stop :: "Ambilight \<Rightarrow> Ambilight" where
  "stop a = a\<lparr>running := False\<rparr>"

text \<open>\<open>start\<close> returns the object and whether a worker thread was launched.\<close>

definition start :: "Ambilight \<Rightarrow> Ambilight \<times> bool" where
  "start a = (if \<not> running a then (a\<lparr>running := True\<rparr>, True) else (a, False))"

text \<open>
  \<open>process\<close>, the worker: the loop runs over the environments of the successive passes.
  It ends by returning (the flag was found cleared), by an exception leaving the loop
  body, or it is still running when the given environments are used up.
\<close>

datatype worker_end = Returned | Raised exn | StillRunning

fun process :: "Ambilight \<Rightarrow> cycle_env list \<Rightarrow> world \<Rightarrow> worker_end \<times> Ambilight \<times> world" where
  "process a [] w = (StillRunning, a, w)"
| "process a (c # cs) w =
     (let a1 = (if stop_called c then stop a else a)
      in if \<not> running a1 then (Returned, a1, w)
         else (case cycle a1 c w of
                 (Inl e, w1) \<Rightarrow> (Raised e, a1, w1)
               | (Inr _, w1) \<Rightarrow> process a1 cs w1))"

section \<open>Example inputs\<close>

text \<open>
  A running controller for a lamp at a fixed address, a pass in which the lamp takes the
  command, and a pass in which it refuses the connection.
\<close>

definition example_ambilight :: Ambilight where
  "example_ambilight =
     \<lparr>running = True, lamp_controller = \<lparr>ip = ''192.168.1.50'', port = 55443\<rparr>,
      refresh_rate = 1\<rparr>"

definition served_cycle :: cycle_env where
  "served_cycle =
     \<lparr>stop_called = False, t_start = 0, screen = Inr [(3, (255, 0, 0)), (1, (0, 0, 0))],
      net = SendTakes 200, t_end = 1 / 4\<rparr>"

definition refused_cycle :: cycle_env where
  "refused_cycle = served_cycle\<lparr>net := ConnectRaises ConnectionRefusedError\<rparr>"

section \<open>Properties of the colour reduction\<close>

lemma accumulate_sums:
  "accumulate colors (ar, ag, ab) =
     (ar + sum_list (map (\<lambda>(_, (r, _, _)). r) colors),
      ag + sum_list (map (\<lambda>(_, (_, g, _)). g) colors),
      ab + sum_list (map (\<lambda>(_, (_, _, b)). b) colors))"
  by (induction colors arbitrary: ar ag ab) auto

lemma accumulate_snd_cong:
  "map snd xs = map snd ys \<Longrightarrow> accumulate xs acc = accumulate ys acc"
proof (induction xs arbitrary: ys acc)
  case Nil
  then show ?case by simp
next
  case (Cons x xs)
  then obtain y ys' where ys: "ys = y # ys'" and hd: "snd x = snd y"
    and tl: "map snd xs = map snd ys'"
    by (cases ys) auto
  obtain n r g b where x: "x = (n, (r, g, b))" by (cases x) auto
  obtain m where y: "y = (m, (r, g, b))" using hd x by (cases y) auto
  obtain ar ag ab where acc: "acc = (ar, ag, ab)" by (cases acc) auto
  show ?case
    using Cons.IH [OF tl] by (simp add: ys x y acc)
qed

lemma calculate_average_rgb_nonempty:
  assumes "colors \<noteq> []"
  shows "calculate_average_rgb colors =
     Inr (sum_list (map (\<lambda>(_, (r, _, _)). r) colors) div int (length colors),
          sum_list (map (\<lambda>(_, (_, g, _)). g) colors) div int (length colors),
          sum_list (map (\<lambda>(_, (_, _, b)). b) colors) div int (length colors))"
  using assms by (simp add: calculate_average_rgb_def accumulate_sums floordiv_def Let_def)

lemma sum_list_channel_bounds:
  fixes f :: "'a \<Rightarrow> int"
  assumes "\<forall>x \<in> set xs. 0 \<le> f x \<and> f x \<le> 255"
  shows "0 \<le> sum_list (map f xs) \<and> sum_list (map f xs) \<le> 255 * int (length xs)"
  using assms by (induction xs) auto

lemma mean_in_byte_range:
  fixes s n :: int
  assumes "0 < n" "0 \<le> s" "s \<le> 255 * n"
  shows "0 \<le> s div n \<and> s div n \<le> 255"
proof
  show "0 \<le> s div n" using assms by (simp add: pos_imp_zdiv_nonneg_iff)
  have "s div n \<le> (255 * n) div n" using assms by (intro zdiv_mono1) auto
  then show "s div n \<le> 255" using assms by simp
qed

text \<open>
  C1 (code evaluated at the claim's own example).  On the colour counts
  \<open>{(255,0,0): 3, (0,0,0): 1}\<close> the function divides the unweighted channel sums by the
  number of distinct colours, 2, and returns \<open>(127, 0, 0)\<close>; the mean weighted by the
  pixel counts, \<open>(255 * 3 + 0 * 1) div (3 + 1) = 191\<close>, is not what it returns.
\<close>

theorem calculate_average_rgb_ignores_weights_example:
  "calculate_average_rgb [(3, (255, 0, 0)), (1, (0, 0, 0))] = Inr (127, 0, 0)
   \<and> calculate_average_rgb [(3, (255, 0, 0)), (1, (0, 0, 0))]
       \<noteq> Inr ((255 * 3 + 0 * 1) div (3 + 1), 0, 0)"
  by (simp add: calculate_average_rgb_def floordiv_def)

text \<open>
  C4 (counterexample).  On the empty list the function does perform the division by
  zero: the result is the interpreter's \<open>ZeroDivisionError\<close>.
\<close>

theorem calculate_average_rgb_empty_divides_by_zero:
  "calculate_average_rgb [] = Inl ZeroDivisionError"
  by (simp add: calculate_average_rgb_def floordiv_def)

text \<open>
  C4 (amended).  \<open>calculate_average_rgb\<close> has no guard for the empty list: it raises
  \<open>ZeroDivisionError\<close> exactly when its argument is empty, and that is the only
  exception it raises.
\<close>

theorem calculate_average_rgb_raises_iff_empty:
  "(calculate_average_rgb colors = Inl e) = (colors = [] \<and> e = ZeroDivisionError)"
proof (cases "colors = []")
  case True
  then show ?thesis
    by (auto simp: calculate_average_rgb_def floordiv_def)
next
  case False
  then show ?thesis
    by (simp add: calculate_average_rgb_nonempty)
qed

text \<open>
  C9.  The result of \<open>calculate_average_rgb\<close> depends only on the colour triples of its
  input: two lists with the same triples in the same order, whatever their counts, give
  the same result.
\<close>

theorem calculate_average_rgb_count_independent:
  assumes "map snd xs = map snd ys"
  shows "calculate_average_rgb xs = calculate_average_rgb ys"
proof -
  have "length xs = length ys"
    using assms by (metis length_map)
  moreover have "accumulate xs (0, 0, 0) = accumulate ys (0, 0, 0)"
    using assms by (rule accumulate_snd_cong)
  ultimately show ?thesis
    by (simp add: calculate_average_rgb_def)
qed

theorem calculate_average_rgb_count_independent_witness:
  "map snd [(3, (255, 0, 0)), (1, (0, 0, 0))] = map snd [(1, (255, 0, 0)), (7::int, (0::int, 0::int, 0::int))]
   \<and> calculate_average_rgb [(3, (255, 0, 0)), (1, (0, 0, 0))]
       = calculate_average_rgb [(1, (255, 0, 0)), (7, (0, 0, 0))]"
  using calculate_average_rgb_count_independent
    [of "[(3, (255, 0, 0)), (1, (0, 0, 0))]" "[(1, (255, 0, 0)), (7, (0, 0, 0))]"]
  by simp

lemma average_channels_in_byte_range:
  assumes "colors \<noteq> []"
    and "\<forall>(n, r, g, b) \<in> set colors.
           0 \<le> r \<and> r \<le> 255 \<and> 0 \<le> g \<and> g \<le> 255 \<and> 0 \<le> b \<and> b \<le> 255"
  shows "\<exists>r g b. calculate_average_rgb colors = Inr (r, g, b)
           \<and> 0 \<le> r \<and> r \<le> 255 \<and> 0 \<le> g \<and> g \<le> 255 \<and> 0 \<le> b \<and> b \<le> 255"
proof -
  let ?n = "int (length colors)"
  have n: "0 < ?n" using assms(1) by simp
  have r: "\<forall>x \<in> set colors. 0 \<le> (\<lambda>(_, (r, _, _)). r) x \<and> (\<lambda>(_, (r, _, _)). r) x \<le> 255"
    using assms(2) by auto
  have g: "\<forall>x \<in> set colors. 0 \<le> (\<lambda>(_, (_, g, _)). g) x \<and> (\<lambda>(_, (_, g, _)). g) x \<le> 255"
    using assms(2) by auto
  have b: "\<forall>x \<in> set colors. 0 \<le> (\<lambda>(_, (_, _, b)). b) x \<and> (\<lambda>(_, (_, _, b)). b) x \<le> 255"
    using assms(2) by auto
  note R = mean_in_byte_range [OF n]
  have "0 \<le> sum_list (map (\<lambda>(_, (r, _, _)). r) colors) div ?n
        \<and> sum_list (map (\<lambda>(_, (r, _, _)). r) colors) div ?n \<le> 255"
    using sum_list_channel_bounds [OF r] by (intro R) auto
  moreover have "0 \<le> sum_list (map (\<lambda>(_, (_, g, _)). g) colors) div ?n
        \<and> sum_list (map (\<lambda>(_, (_, g, _)). g) colors) div ?n \<le> 255"
    using sum_list_channel_bounds [OF g] by (intro R) auto
  moreover have "0 \<le> sum_list (map (\<lambda>(_, (_, _, b)). b) colors) div ?n
        \<and> sum_list (map (\<lambda>(_, (_, _, b)). b) colors) div ?n \<le> 255"
    using sum_list_channel_bounds [OF b] by (intro R) auto
  ultimately show ?thesis
    by (simp add: calculate_average_rgb_nonempty [OF assms(1)])
qed

section \<open>Properties of command construction\<close>

lemma new_CommandPayload_id:
  "new_CommandPayload m ps w =
     (\<lparr>id' = next_id w + 1, method = m, params = ps\<rparr>, w\<lparr>next_id := next_id w + 1\<rparr>)"
  by (simp add: new_CommandPayload_def Let_def)

lemma build_counter:
  "id' (fst (build c w)) = next_id w + 1 \<and> next_id (snd (build c w)) = next_id w + 1"
  by (cases c) (simp_all add: bg_set_rgb_def bg_set_bright_def new_CommandPayload_id)

lemma build_all_ids:
  "map id' (fst (build_all cs w)) = map (\<lambda>k. next_id w + 1 + int k) [0..<length cs]"
proof (induction cs arbitrary: w)
  case Nil
  then show ?case by simp
next
  case (Cons c cs)
  obtain p w1 where b: "build c w = (p, w1)" by (cases "build c w")
  obtain ps w2 where bs: "build_all cs w1 = (ps, w2)" by (cases "build_all cs w1")
  have p: "id' p = next_id w + 1" and w1: "next_id w1 = next_id w + 1"
    using build_counter [of c w] b by simp_all
  have "map id' ps = map (\<lambda>k. next_id w1 + 1 + int k) [0..<length cs]"
    using Cons.IH [of w1] bs by simp
  also have "\<dots> = map (\<lambda>k. next_id w + 1 + int (Suc k)) [0..<length cs]"
    by (simp add: w1)
  finally have tl: "map id' ps = map ((\<lambda>k. next_id w + 1 + int k) \<circ> Suc) [0..<length cs]"
    by (simp add: comp_def)
  have "map (\<lambda>k. next_id w + 1 + int k) [0..<length (c # cs)]
        = (next_id w + 1) # map ((\<lambda>k. next_id w + 1 + int k) \<circ> Suc) [0..<length cs]"
    by (simp add: upt_conv_Cons map_Suc_upt [symmetric] del: upt_Suc)
  then show ?case
    using p tl by (simp add: b bs del: upt_Suc)
qed

text \<open>
  C6.  The identifiers given to the Commands of any sequence of constructions, through
  either builder, are consecutive integers: from a fresh process they are
  \<open>0, 1, \<dots>, N - 1\<close>; from any state of the counter they continue it without gap or
  repeat, and they are strictly increasing.
\<close>

theorem command_ids_consecutive_from_zero:
  "map id' (fst (build_all calls initial_world)) = map int [0..<length calls]
   \<and> map id' (fst (build_all calls w)) = map (\<lambda>k. next_id w + 1 + int k) [0..<length calls]
   \<and> sorted_wrt (<) (map id' (fst (build_all calls w)))"
proof -
  have a: "map id' (fst (build_all calls initial_world)) = map int [0..<length calls]"
    by (simp add: build_all_ids initial_world_def)
  have b: "map id' (fst (build_all calls w)) = map (\<lambda>k. next_id w + 1 + int k) [0..<length calls]"
    by (rule build_all_ids)
  have "sorted_wrt (<) (map (\<lambda>k. next_id w + 1 + int k) [0..<length calls])"
    by (simp add: sorted_wrt_map sorted_wrt_iff_nth_less)
  with a b show ?thesis by simp
qed

text \<open>
  C5 (amended).  \<open>bg_set_rgb\<close> applies no range constraint.  For all integers
  \<open>r\<close>, \<open>g\<close>, \<open>b\<close> it returns a Command with method \<open>bg_set_rgb\<close> and parameter
  list \<open>[r * 65536 + g * 256 + b, effect, duration]\<close>; when \<open>r\<close>, \<open>g\<close>, \<open>b\<close> are in
  \<open>[0, 255]\<close> that first parameter is the 24-bit packed colour, from which the three
  channels are read back.
\<close>

theorem bg_set_rgb_packs_without_constraint:
  "fst (bg_set_rgb r g b effect duration w) =
     \<lparr>id' = next_id w + 1, method = ''bg_set_rgb'',
      params = [PInt (r * 65536 + g * 256 + b), PStr effect, PInt duration]\<rparr>
   \<and> (0 \<le> r \<and> r \<le> 255 \<and> 0 \<le> g \<and> g \<le> 255 \<and> 0 \<le> b \<and> b \<le> 255 \<longrightarrow>
        0 \<le> convert_rgb r g b \<and> convert_rgb r g b \<le> 16777215
        \<and> convert_rgb r g b div 65536 = r
        \<and> convert_rgb r g b div 256 mod 256 = g
        \<and> convert_rgb r g b mod 256 = b)"
proof (intro conjI impI)
  show "fst (bg_set_rgb r g b effect duration w) =
     \<lparr>id' = next_id w + 1, method = ''bg_set_rgb'',
      params = [PInt (r * 65536 + g * 256 + b), PStr effect, PInt duration]\<rparr>"
    by (simp add: bg_set_rgb_def new_CommandPayload_id convert_rgb_def)
next
  assume h: "0 \<le> r \<and> r \<le> 255 \<and> 0 \<le> g \<and> g \<le> 255 \<and> 0 \<le> b \<and> b \<le> 255"
  have low: "0 \<le> g * 256 + b" "g * 256 + b < 65536" using h by auto
  show "0 \<le> convert_rgb r g b" "convert_rgb r g b \<le> 16777215"
    using h unfolding convert_rgb_def by auto
  have "(r * 65536 + (g * 256 + b)) div 65536 = r"
    using low by (simp add: div_pos_pos_trivial)
  then show "convert_rgb r g b div 65536 = r"
    by (simp add: convert_rgb_def add.assoc)
  have shape: "convert_rgb r g b = (r * 256 + g) * 256 + b"
    by (simp add: convert_rgb_def algebra_simps)
  have b: "0 \<le> b" "b < 256" using h by auto
  have d: "(q * 256 + b) div 256 = q" and m: "(q * 256 + b) mod 256 = b" for q
    using b by (simp_all add: div_pos_pos_trivial)
  have "(r * 256 + g) mod 256 = g" using h by simp
  then show "convert_rgb r g b div 256 mod 256 = g"
    unfolding shape d .
  show "convert_rgb r g b mod 256 = b"
    unfolding shape by (rule m)
qed

theorem bg_set_rgb_packs_without_constraint_witness:
  "fst (bg_set_rgb 18 52 86 ''smooth'' 500 initial_world) =
     \<lparr>id' = 0, method = ''bg_set_rgb'', params = [PInt 1193046, PStr ''smooth'', PInt 500]\<rparr>
   \<and> (0::int) \<le> 18 \<and> (18::int) \<le> 255 \<and> (0::int) \<le> 52 \<and> (52::int) \<le> 255
   \<and> (0::int) \<le> 86 \<and> (86::int) \<le> 255
   \<and> 0 \<le> convert_rgb 18 52 86 \<and> convert_rgb 18 52 86 \<le> 16777215
   \<and> convert_rgb 18 52 86 div 65536 = 18
   \<and> convert_rgb 18 52 86 div 256 mod 256 = 52
   \<and> convert_rgb 18 52 86 mod 256 = 86"
  using bg_set_rgb_packs_without_constraint [of 18 52 86 "''smooth''" 500 initial_world]
  by (simp add: initial_world_def)

text \<open>
  C5 (counterexample).  For \<open>r = 256\<close> the first parameter is \<open>16777216\<close>, above the
  largest value \<open>255 * 65536 + 255 * 256 + 255\<close> that channels constrained to
  \<open>[0, 255]\<close> can pack to.
\<close>

theorem bg_set_rgb_out_of_range_not_constrained:
  "params (fst (bg_set_rgb 256 0 0 ''smooth'' 500 initial_world))
     = [PInt 16777216, PStr ''smooth'', PInt 500]
   \<and> (255 * 65536 + 255 * 256 + 255 :: int) < 16777216"
  by (simp add: bg_set_rgb_def new_CommandPayload_id convert_rgb_def)

section \<open>Properties of serialisation and transmission\<close>

lemma bg_set_bright_eq:
  "bg_set_bright v effect duration w =
     (\<lparr>id' = next_id w + 1, method = ''bg_set_bright'',
       params = [PInt v, PStr effect, PInt duration]\<rparr>, w\<lparr>next_id := next_id w + 1\<rparr>)"
  by (simp add: bg_set_bright_def new_CommandPayload_id)

lemma bg_set_rgb_eq:
  "bg_set_rgb r g b effect duration w =
     (\<lparr>id' = next_id w + 1, method = ''bg_set_rgb'',
       params = [PInt (convert_rgb r g b), PStr effect, PInt duration]\<rparr>,
      w\<lparr>next_id := next_id w + 1\<rparr>)"
  by (simp add: bg_set_rgb_def new_CommandPayload_id)

lemma asdict_keys:
  "map fst (asdict c w) = [''id'', ''method'', ''params'', ''_next_id'']"
  by (simp add: asdict_def)

text \<open>
  C3 (code evaluated at the first Command of a process).  The dictionary that
  \<open>as_bytes\<close> serialises has four keys, not three: after \<open>id\<close>, \<open>method\<close> and
  \<open>params\<close> comes \<open>_next_id\<close>, holding the class counter.  The bytes sent for the
  first brightness command are those of the JSON text with that fourth member, followed
  by CR LF.
\<close>

theorem as_bytes_first_command_has_fourth_field:
  "(let (c, w) = bg_set_bright 100 ''smooth'' 500 initial_world
    in map fst (asdict c w) = [''id'', ''method'', ''params'', ''_next_id'']
       \<and> as_bytes c w =
           encode_utf8 (''{'' @ quoted ''id'' @ '': 0, ''
                        @ quoted ''method'' @ '': '' @ quoted ''bg_set_bright'' @ '', ''
                        @ quoted ''params'' @ '': [100, '' @ quoted ''smooth'' @ '', 500], ''
                        @ quoted ''_next_id'' @ '': 0}'')
           @ [13, 10])"
  by code_simp

lemma send_command_cases:
  "send_command lamp payload out w =
     (let w1 = emit [Socket, Connect (ip lamp) (port lamp)] w
      in case out of
           ConnectRaises e \<Rightarrow> (Inl e, w1)
         | SendRaises e \<Rightarrow> (Inl e, emit [Send (as_bytes payload w1), Close] w1)
         | SendTakes n \<Rightarrow>
             (Inr (int (min n (length (as_bytes payload w1)))),
              emit [Send (as_bytes payload w1), Close] w1))"
  by (cases out)
     (simp_all add: send_command_def send_enter_def socket_send_def send_exit_def emit_def Let_def)

text \<open>
  C7 (code evaluated where the lamp refuses the connection).  \<open>send_command\<close> creates
  the socket and calls connect; the exception leaves the call and no close was issued,
  since connect stands before the \<open>try\<close>.  Second, where the connection is made and
  the one \<open>send\<close> call takes 10 of the 85 bytes, \<open>send_command\<close> returns 10: the rest
  is not written.
\<close>

theorem send_command_refused_connect_leaves_socket_open:
  "(let lamp = \<lparr>ip = ''192.168.1.50'', port = 55443\<rparr>;
        (payload, w) = bg_set_bright 100 ''smooth'' 500 initial_world;
        (result, w') = send_command lamp payload (ConnectRaises ConnectionRefusedError) w
    in result = Inl ConnectionRefusedError
       \<and> trace w' = [Socket, Connect ''192.168.1.50'' 55443]
       \<and> Close \<notin> set (trace w'))
   \<and> (let lamp = \<lparr>ip = ''192.168.1.50'', port = 55443\<rparr>;
        (payload, w) = bg_set_bright 100 ''smooth'' 500 initial_world;
        (result, w') = send_command lamp payload (SendTakes 10) w
    in result = Inr 10 \<and> length (as_bytes payload w) = 85)"
  by code_simp


lemma set_brightness_cases:
  "set_brightness a v out w =
     send_command (lamp_controller a)
       \<lparr>id' = next_id w + 1, method = ''bg_set_bright'',
        params = [PInt v, PStr ''smooth'', PInt 500]\<rparr>
       out (w\<lparr>next_id := next_id w + 1\<rparr>)"
  by (simp add: set_brightness_def bg_set_bright_eq)

lemma send_command_trace_extends:
  "\<exists>more. trace (snd (send_command lamp payload out w)) = trace w @ more"
  by (cases out) (simp_all add: send_command_cases emit_def Let_def)

lemma cycle_trace_extends:
  "\<exists>more. trace (snd (cycle a c w)) = trace w @ more"
proof -
  obtain r w1 where g: "get_color (screen c) w = (r, w1)" by (cases "get_color (screen c) w")
  have t1: "trace w1 = trace w @ [Screenshot]"
    using g by (auto simp: get_color_def emit_def Let_def split: sum.splits)
  show ?thesis
  proof (cases r)
    case (Inl e)
    then show ?thesis using g t1 by (simp add: cycle_def)
  next
    case (Inr color)
    obtain cr cg cb where color: "color = (cr, cg, cb)" by (cases color) auto
    let ?s = "send_set_color_command a color (net c) w1"
    obtain r2 w2 where s: "?s = (r2, w2)" by (cases ?s)
    have "w2 = snd (send_command (lamp_controller a)
                     (fst (bg_set_rgb cr cg cb ''smooth'' 500 w1)) (net c)
                     (snd (bg_set_rgb cr cg cb ''smooth'' 500 w1)))"
      using s by (simp add: send_set_color_command_def color split_beta Let_def)
    then obtain more where t2: "trace w2 = trace w1 @ more"
      using send_command_trace_extends
        [of "lamp_controller a" "fst (bg_set_rgb cr cg cb ''smooth'' 500 w1)" "net c"
            "snd (bg_set_rgb cr cg cb ''smooth'' 500 w1)"]
      by (auto simp: bg_set_rgb_eq)
    show ?thesis
    proof (cases r2)
      case (Inl e)
      then show ?thesis using g Inr s t1 t2 by (simp add: cycle_def)
    next
      case (Inr ret)
      then show ?thesis
        using g \<open>r = Inr color\<close> s t1 t2 by (simp add: cycle_def emit_def Let_def)
    qed
  qed
qed

lemma process_trace_extends:
  "\<exists>more. trace (snd (snd (process a cs w))) = trace w @ more"
proof (induction cs arbitrary: a w)
  case Nil
  then show ?case by simp
next
  case (Cons c cs)
  let ?a1 = "if stop_called c then stop a else a"
  obtain r w1 where cy: "cycle ?a1 c w = (r, w1)" by (cases "cycle ?a1 c w")
  obtain m1 where m1: "trace w1 = trace w @ m1"
    using cycle_trace_extends [of ?a1 c w] cy by auto
  obtain m2 where m2: "trace (snd (snd (process ?a1 cs w1))) = trace w1 @ m2"
    using Cons.IH [of ?a1 w1] by auto
  show ?case
  proof (cases "running ?a1")
    case False
    then show ?thesis by (simp add: Let_def)
  next
    case True
    show ?thesis
    proof (cases r)
      case (Inl e)
      then show ?thesis using True cy m1 by (simp add: Let_def)
    next
      case (Inr u)
      then show ?thesis using True cy m1 m2 by (simp add: Let_def)
    qed
  qed
qed

text \<open>
  C8.  Constructing \<open>Ambilight\<close> with initial brightness 80 constructs exactly one
  Command (the counter advances by one), with method \<open>bg_set_bright\<close> and parameters
  \<open>[80, "smooth", 500]\<close>, and hands it to one connection.  When the connection or the
  send raises, the exception is the constructor's result and no object is returned;
  otherwise the object is returned with \<open>running = False\<close>.  Whatever a later run of
  the loop does is appended after these events.
\<close>

theorem Ambilight_init_issues_one_brightness_command:
  "(let (res, w') = Ambilight_init lamp rate 80 out w;
        command = \<lparr>id' = next_id w + 1, method = ''bg_set_bright'',
                   params = [PInt 80, PStr ''smooth'', PInt 500]\<rparr>;
        opened = trace w @ [Socket, Connect (ip lamp) (port lamp)]
    in next_id w' = next_id w + 1
       \<and> (case out of
             ConnectRaises e \<Rightarrow> res = Inl e \<and> trace w' = opened
           | SendRaises e \<Rightarrow>
               res = Inl e \<and> trace w' = opened @ [Send (as_bytes command w'), Close]
           | SendTakes n \<Rightarrow>
               res = Inr \<lparr>running = False, lamp_controller = lamp, refresh_rate = rate\<rparr>
               \<and> trace w' = opened @ [Send (as_bytes command w'), Close])
       \<and> (\<forall>a cycles. \<exists>later. trace (snd (snd (process a cycles w'))) = trace w' @ later))"
proof -
  have p: "\<forall>a cycles. \<exists>later. trace (snd (snd (process a cycles w'))) = trace w' @ later" for w'
    using process_trace_extends by blast
  show ?thesis
    by (cases out)
       (simp_all add: Ambilight_init_def set_brightness_cases send_command_cases
          emit_def Let_def as_bytes_def asdict_def p)
qed

section \<open>Properties of the control loop\<close>

lemma process_append:
  "process a (xs @ ys) w =
     (case process a xs w of
        (StillRunning, a1, w1) \<Rightarrow> process a1 ys w1
      | (Returned, a1, w1) \<Rightarrow> (Returned, a1, w1)
      | (Raised e, a1, w1) \<Rightarrow> (Raised e, a1, w1))"
proof (induction xs arbitrary: a w)
  case Nil
  then show ?case by simp
next
  case (Cons c cs)
  let ?a1 = "if stop_called c then stop a else a"
  show ?case
  proof (cases "running ?a1")
    case False
    then show ?thesis by (simp add: Let_def)
  next
    case True
    obtain r w1 where cy: "cycle ?a1 c w = (r, w1)" by (cases "cycle ?a1 c w")
    show ?thesis
    proof (cases r)
      case (Inl e)
      then show ?thesis using True cy by (simp add: Let_def)
    next
      case (Inr u)
      then show ?thesis using True cy Cons.IH [of ?a1 w1] by (simp add: Let_def)
    qed
  qed
qed

text \<open>
  C2 (amended).  An exception raised inside one pass of the running loop is not caught
  by the loop body.  If the loop is still running after the passes \<open>before\<close>, the flag
  is set, \<open>stop\<close> has not been called and the next pass raises \<open>e\<close>, then
  \<open>process\<close> ends with \<open>e\<close> in the state that pass left: the flag stays set, and
  none of the passes \<open>after\<close> is run, so no further \<open>send_command\<close> is attempted.
\<close>

theorem process_cycle_failure_ends_worker:
  assumes "process a before w = (StillRunning, a1, w1)"
    and "running a1"
    and "\<not> stop_called c"
    and "cycle a1 c w1 = (Inl e, w2)"
  shows "process a (before @ c # after) w = (Raised e, a1, w2)"
  using assms by (simp add: process_append Let_def)

lemma served_step:
  "process example_ambilight [served_cycle] initial_world =
     (StillRunning, example_ambilight, snd (cycle example_ambilight served_cycle initial_world))"
  by (simp add: example_ambilight_def served_cycle_def initial_world_def cycle_def
        get_color_def calculate_average_rgb_def floordiv_def send_set_color_command_def
        bg_set_rgb_eq send_command_cases emit_def Let_def)

lemma refused_step:
  "fst (cycle example_ambilight refused_cycle w) = Inl ConnectionRefusedError"
  by (simp add: example_ambilight_def served_cycle_def refused_cycle_def cycle_def
        get_color_def calculate_average_rgb_def floordiv_def send_set_color_command_def
        bg_set_rgb_eq send_command_cases emit_def Let_def)

theorem process_cycle_failure_ends_worker_witness:
  "fst (process example_ambilight ([served_cycle] @ refused_cycle # [served_cycle]) initial_world)
     = Raised ConnectionRefusedError
   \<and> running (fst (snd (process example_ambilight
                           ([served_cycle] @ refused_cycle # [served_cycle]) initial_world)))"
proof -
  let ?w1 = "snd (cycle example_ambilight served_cycle initial_world)"
  have c: "cycle example_ambilight refused_cycle ?w1 =
             (Inl ConnectionRefusedError, snd (cycle example_ambilight refused_cycle ?w1))"
    using refused_step [of ?w1] by (metis prod.collapse)
  have r: "running example_ambilight" by (simp add: example_ambilight_def)
  have s: "\<not> stop_called refused_cycle" by (simp add: refused_cycle_def served_cycle_def)
  show ?thesis
    using process_cycle_failure_ends_worker [OF served_step r s c, of "[served_cycle]"] r
    by simp
qed

text \<open>
  C2 (counterexample).  With two passes available, the first of which meets a refused
  connection, the worker ends with \<open>ConnectionRefusedError\<close>, and the trace holds the
  single connection attempt of the first pass: the second pass never connects.
\<close>

theorem process_refused_connection_stops_loop:
  "fst (process example_ambilight [refused_cycle, served_cycle] initial_world)
     = Raised ConnectionRefusedError
   \<and> trace (snd (snd (process example_ambilight [refused_cycle, served_cycle] initial_world)))
     = [Screenshot, Socket, Connect ''192.168.1.50'' 55443]"
  by (simp add: example_ambilight_def served_cycle_def refused_cycle_def initial_world_def
        cycle_def get_color_def calculate_average_rgb_def floordiv_def
        send_set_color_command_def bg_set_rgb_eq send_command_cases emit_def Let_def)

section \<open>The colours the loop dispatches\<close>

lemma as_bytes_next_id:
  "as_bytes c w = as_bytes c \<lparr>next_id = next_id w, trace = []\<rparr>"
  by (simp add: as_bytes_def asdict_def)

text \<open>
  One pass over a screen content whose mean is \<open>(r, g, b)\<close>: the events it adds, for
  each answer of the network.  The command on the wire is the \<open>bg_set_rgb\<close> command
  packed from exactly that triple.
\<close>

lemma cycle_dispatches_mean:
  assumes "screen c = Inr colors" and "calculate_average_rgb colors = Inr (r, g, b)"
  shows "(let command = \<lparr>id' = next_id w + 1, method = ''bg_set_rgb'',
                         params = [PInt (convert_rgb r g b), PStr ''smooth'', PInt 500]\<rparr>;
              w' = snd (cycle a c w);
              opened = trace w @ [Screenshot, Socket,
                         Connect (ip (lamp_controller a)) (port (lamp_controller a))];
              delta = t_end c - t_start c
          in next_id w' = next_id w + 1
             \<and> (case net c of
                   ConnectRaises e \<Rightarrow> trace w' = opened
                 | SendRaises e \<Rightarrow> trace w' = opened @ [Send (as_bytes command w'), Close]
                 | SendTakes n \<Rightarrow>
                     trace w' = opened @ [Send (as_bytes command w'), Close,
                                  LogDebug (int (min n (length (as_bytes command w'))))]
                                @ (if delta < refresh_rate a
                                   then [Sleep (refresh_rate a - delta)] else [])))"
  using assms
  by (cases "net c")
     (simp_all add: cycle_def get_color_def send_set_color_command_def bg_set_rgb_eq
        send_command_cases emit_def Let_def as_bytes_def asdict_def)

text \<open>
  A pass whose mean cannot be taken (the grab raised, or the list was empty) adds the
  grab alone: nothing is sent.
\<close>

lemma cycle_without_mean:
  assumes "screen c = Inl e \<or> (\<exists>colors e'. screen c = Inr colors
             \<and> calculate_average_rgb colors = Inl e')"
  shows "trace (snd (cycle a c w)) = trace w @ [Screenshot]"
  using assms by (auto simp: cycle_def get_color_def emit_def Let_def)

lemma cycle_sends_byte_colors:
  assumes "\<forall>cs. screen c = Inr cs \<longrightarrow>
             (\<forall>(n, r, g, b) \<in> set cs.
                0 \<le> r \<and> r \<le> 255 \<and> 0 \<le> g \<and> g \<le> 255 \<and> 0 \<le> b \<and> b \<le> 255)"
  shows "\<exists>more. trace (snd (cycle a c w)) = trace w @ more
           \<and> (\<forall>data. Send data \<in> set more \<longrightarrow>
                 (\<exists>k r g b. 0 \<le> r \<and> r \<le> 255 \<and> 0 \<le> g \<and> g \<le> 255 \<and> 0 \<le> b \<and> b \<le> 255
                    \<and> data = as_bytes
                               \<lparr>id' = k, method = ''bg_set_rgb'',
                                params = [PInt (convert_rgb r g b), PStr ''smooth'', PInt 500]\<rparr>
                               \<lparr>next_id = k, trace = []\<rparr>))"
proof (cases "screen c")
  case (Inl e)
  then have "trace (snd (cycle a c w)) = trace w @ [Screenshot]"
    by (intro cycle_without_mean) simp
  then show ?thesis by auto
next
  case (Inr cs)
  show ?thesis
  proof (cases "cs = []")
    case True
    then have "calculate_average_rgb cs = Inl ZeroDivisionError"
      by (simp add: calculate_average_rgb_def floordiv_def)
    then have "trace (snd (cycle a c w)) = trace w @ [Screenshot]"
      using Inr by (intro cycle_without_mean) auto
    then show ?thesis by auto
  next
    case False
    have range: "\<forall>(n, r, g, b) \<in> set cs.
                   0 \<le> r \<and> r \<le> 255 \<and> 0 \<le> g \<and> g \<le> 255 \<and> 0 \<le> b \<and> b \<le> 255"
      using assms Inr by blast
    obtain r g b where mean: "calculate_average_rgb cs = Inr (r, g, b)"
      and b: "0 \<le> r" "r \<le> 255" "0 \<le> g" "g \<le> 255" "0 \<le> b" "b \<le> 255"
      using average_channels_in_byte_range [OF False range] by blast
    let ?command = "\<lparr>id' = next_id w + 1, method = ''bg_set_rgb'',
                     params = [PInt (convert_rgb r g b), PStr ''smooth'', PInt 500]\<rparr>"
    let ?w' = "snd (cycle a c w)"
    let ?opened = "trace w @ [Screenshot, Socket,
                     Connect (ip (lamp_controller a)) (port (lamp_controller a))]"
    note D = cycle_dispatches_mean [OF Inr mean, of w a, unfolded Let_def]
    have id: "next_id ?w' = next_id w + 1" using D by simp
    have payload: "as_bytes ?command ?w' = as_bytes ?command \<lparr>next_id = next_id w + 1, trace = []\<rparr>"
      using as_bytes_next_id [of ?command ?w'] id by simp
    have good: "\<exists>k r g b. 0 \<le> r \<and> r \<le> 255 \<and> 0 \<le> g \<and> g \<le> 255 \<and> 0 \<le> b \<and> b \<le> 255
                  \<and> as_bytes ?command ?w' = as_bytes
                               \<lparr>id' = k, method = ''bg_set_rgb'',
                                params = [PInt (convert_rgb r g b), PStr ''smooth'', PInt 500]\<rparr>
                               \<lparr>next_id = k, trace = []\<rparr>"
      using b payload by blast
    show ?thesis
    proof (cases "net c")
      case (ConnectRaises e)
      then have "trace ?w' = trace w @ [Screenshot, Socket,
                   Connect (ip (lamp_controller a)) (port (lamp_controller a))]"
        using D by simp
      then show ?thesis by auto
    next
      case (SendRaises e)
      then have "trace ?w' = trace w @ [Screenshot, Socket,
                   Connect (ip (lamp_controller a)) (port (lamp_controller a)),
                   Send (as_bytes ?command ?w'), Close]"
        using D by simp
      then show ?thesis using good by auto
    next
      case (SendTakes n)
      let ?more = "[Screenshot, Socket,
                   Connect (ip (lamp_controller a)) (port (lamp_controller a)),
                   Send (as_bytes ?command ?w'), Close,
                   LogDebug (int (min n (length (as_bytes ?command ?w'))))]
                   @ (if t_end c - t_start c < refresh_rate a
                      then [Sleep (refresh_rate a - (t_end c - t_start c))] else [])"
      have tr: "trace ?w' = trace w @ ?more"
        using D SendTakes by simp
      have "\<forall>data. Send data \<in> set ?more \<longrightarrow> data = as_bytes ?command ?w'"
        by auto
      then show ?thesis using tr good by metis
    qed
  qed
qed

lemma process_sends_byte_colors:
  assumes "\<forall>c \<in> set cycles. \<forall>cs. screen c = Inr cs \<longrightarrow>
             (\<forall>(n, r, g, b) \<in> set cs.
                0 \<le> r \<and> r \<le> 255 \<and> 0 \<le> g \<and> g \<le> 255 \<and> 0 \<le> b \<and> b \<le> 255)"
  shows "\<exists>more. trace (snd (snd (process a cycles w))) = trace w @ more
           \<and> (\<forall>data. Send data \<in> set more \<longrightarrow>
                 (\<exists>k r g b. 0 \<le> r \<and> r \<le> 255 \<and> 0 \<le> g \<and> g \<le> 255 \<and> 0 \<le> b \<and> b \<le> 255
                    \<and> data = as_bytes
                               \<lparr>id' = k, method = ''bg_set_rgb'',
                                params = [PInt (convert_rgb r g b), PStr ''smooth'', PInt 500]\<rparr>
                               \<lparr>next_id = k, trace = []\<rparr>))"
  using assms
proof (induction cycles arbitrary: a w)
  case Nil
  then show ?case by simp
next
  case (Cons c cs)
  let ?good = "\<lambda>data. \<exists>k r g b. 0 \<le> r \<and> r \<le> 255 \<and> 0 \<le> g \<and> g \<le> 255 \<and> 0 \<le> b \<and> b \<le> 255
                    \<and> data = as_bytes
                               \<lparr>id' = k, method = ''bg_set_rgb'',
                                params = [PInt (convert_rgb r g b), PStr ''smooth'', PInt 500]\<rparr>
                               \<lparr>next_id = k, trace = []\<rparr>"
  let ?a1 = "if stop_called c then stop a else a"
  obtain res w1 where cy: "cycle ?a1 c w = (res, w1)" by (cases "cycle ?a1 c w")
  have hc: "\<forall>xs. screen c = Inr xs \<longrightarrow>
             (\<forall>(n, r, g, b) \<in> set xs.
                0 \<le> r \<and> r \<le> 255 \<and> 0 \<le> g \<and> g \<le> 255 \<and> 0 \<le> b \<and> b \<le> 255)"
    using Cons.prems by simp
  obtain m1 where m1: "trace w1 = trace w @ m1" and g1: "\<forall>data. Send data \<in> set m1 \<longrightarrow> ?good data"
    using cycle_sends_byte_colors [OF hc, of ?a1 w] cy by auto
  have hcs: "\<forall>c \<in> set cs. \<forall>xs. screen c = Inr xs \<longrightarrow>
             (\<forall>(n, r, g, b) \<in> set xs.
                0 \<le> r \<and> r \<le> 255 \<and> 0 \<le> g \<and> g \<le> 255 \<and> 0 \<le> b \<and> b \<le> 255)"
    using Cons.prems by simp
  obtain m2 where m2: "trace (snd (snd (process ?a1 cs w1))) = trace w1 @ m2"
    and g2: "\<forall>data. Send data \<in> set m2 \<longrightarrow> ?good data"
    using Cons.IH [OF hcs, of ?a1 w1] by auto
  show ?case
  proof (cases "running ?a1")
    case False
    then show ?thesis by (simp add: Let_def)
  next
    case True
    show ?thesis
    proof (cases res)
      case (Inl e)
      then have "trace (snd (snd (process a (c # cs) w))) = trace w @ m1"
        using True cy m1 by (simp add: Let_def)
      then show ?thesis using g1 by blast
    next
      case (Inr u)
      then have "trace (snd (snd (process a (c # cs) w))) = trace w @ (m1 @ m2)"
        using True cy m1 m2 by (simp add: Let_def)
      moreover have "\<forall>data. Send data \<in> set (m1 @ m2) \<longrightarrow> ?good data"
        using g1 g2 by auto
      ultimately show ?thesis by blast
    qed
  qed
qed

text \<open>
  C10.  On a non-empty list whose colour triples all have channels in \<open>[0, 255]\<close>,
  \<open>calculate_average_rgb\<close> returns a triple, and each of its channels lies in
  \<open>[0, 255]\<close>.  Hence the colours the loop dispatches are 8-bit colours: \<open>get_color\<close>
  returns that triple; a pass of the loop over such a screen content sends, whenever it
  gets to send, the \<open>bg_set_rgb\<close> command packed from exactly that triple; and over any
  run of the loop whose screen contents have 8-bit channels, every payload sent is a
  \<open>bg_set_rgb\<close> command packed from a triple with channels in \<open>[0, 255]\<close>.
\<close>

theorem calculate_average_rgb_in_byte_range:
  assumes "colors \<noteq> []"
    and "\<forall>(n, r, g, b) \<in> set colors.
           0 \<le> r \<and> r \<le> 255 \<and> 0 \<le> g \<and> g \<le> 255 \<and> 0 \<le> b \<and> b \<le> 255"
  shows "\<exists>r g b. calculate_average_rgb colors = Inr (r, g, b)
           \<and> fst (get_color (Inr colors) w) = Inr (r, g, b)
           \<and> 0 \<le> r \<and> r \<le> 255 \<and> 0 \<le> g \<and> g \<le> 255 \<and> 0 \<le> b \<and> b \<le> 255
           \<and> (\<forall>a c. screen c = Inr colors \<longrightarrow>
                (let command = \<lparr>id' = next_id w + 1, method = ''bg_set_rgb'',
                                 params = [PInt (convert_rgb r g b), PStr ''smooth'', PInt 500]\<rparr>;
                     w' = snd (cycle a c w);
                     opened = trace w @ [Screenshot, Socket,
                                Connect (ip (lamp_controller a)) (port (lamp_controller a))];
                     delta = t_end c - t_start c
                 in next_id w' = next_id w + 1
                    \<and> (case net c of
                          ConnectRaises e \<Rightarrow> trace w' = opened
                        | SendRaises e \<Rightarrow>
                            trace w' = opened @ [Send (as_bytes command w'), Close]
                        | SendTakes n \<Rightarrow>
                            trace w' = opened @ [Send (as_bytes command w'), Close,
                                         LogDebug (int (min n (length (as_bytes command w'))))]
                                       @ (if delta < refresh_rate a
                                          then [Sleep (refresh_rate a - delta)] else []))))
           \<and> (\<forall>a cycles.
                (\<forall>c \<in> set cycles. \<forall>cs. screen c = Inr cs \<longrightarrow>
                   (\<forall>(n, r, g, b) \<in> set cs.
                      0 \<le> r \<and> r \<le> 255 \<and> 0 \<le> g \<and> g \<le> 255 \<and> 0 \<le> b \<and> b \<le> 255))
                \<longrightarrow> (\<exists>more. trace (snd (snd (process a cycles w))) = trace w @ more
                       \<and> (\<forall>data. Send data \<in> set more \<longrightarrow>
                            (\<exists>k r g b. 0 \<le> r \<and> r \<le> 255 \<and> 0 \<le> g \<and> g \<le> 255
                               \<and> 0 \<le> b \<and> b \<le> 255
                               \<and> data = as_bytes
                                   \<lparr>id' = k, method = ''bg_set_rgb'',
                                    params = [PInt (convert_rgb r g b), PStr ''smooth'',
                                              PInt 500]\<rparr>
                                   \<lparr>next_id = k, trace = []\<rparr>))))"
proof -
  obtain r g b where mean: "calculate_average_rgb colors = Inr (r, g, b)"
    and b: "0 \<le> r \<and> r \<le> 255 \<and> 0 \<le> g \<and> g \<le> 255 \<and> 0 \<le> b \<and> b \<le> 255"
    using average_channels_in_byte_range [OF assms] by blast
  have grab: "fst (get_color (Inr colors) w) = Inr (r, g, b)"
    using mean by (simp add: get_color_def Let_def)
  have pass: "\<forall>a c. screen c = Inr colors \<longrightarrow>
                (let command = \<lparr>id' = next_id w + 1, method = ''bg_set_rgb'',
                                 params = [PInt (convert_rgb r g b), PStr ''smooth'', PInt 500]\<rparr>;
                     w' = snd (cycle a c w);
                     opened = trace w @ [Screenshot, Socket,
                                Connect (ip (lamp_controller a)) (port (lamp_controller a))];
                     delta = t_end c - t_start c
                 in next_id w' = next_id w + 1
                    \<and> (case net c of
                          ConnectRaises e \<Rightarrow> trace w' = opened
                        | SendRaises e \<Rightarrow>
                            trace w' = opened @ [Send (as_bytes command w'), Close]
                        | SendTakes n \<Rightarrow>
                            trace w' = opened @ [Send (as_bytes command w'), Close,
                                         LogDebug (int (min n (length (as_bytes command w'))))]
                                       @ (if delta < refresh_rate a
                                          then [Sleep (refresh_rate a - delta)] else [])))"
    using cycle_dispatches_mean [OF _ mean] by blast
  have run: "\<forall>a cycles.
                (\<forall>c \<in> set cycles. \<forall>cs. screen c = Inr cs \<longrightarrow>
                   (\<forall>(n, r, g, b) \<in> set cs.
                      0 \<le> r \<and> r \<le> 255 \<and> 0 \<le> g \<and> g \<le> 255 \<and> 0 \<le> b \<and> b \<le> 255))
                \<longrightarrow> (\<exists>more. trace (snd (snd (process a cycles w))) = trace w @ more
                       \<and> (\<forall>data. Send data \<in> set more \<longrightarrow>
                            (\<exists>k r g b. 0 \<le> r \<and> r \<le> 255 \<and> 0 \<le> g \<and> g \<le> 255
                               \<and> 0 \<le> b \<and> b \<le> 255
                               \<and> data = as_bytes
                                   \<lparr>id' = k, method = ''bg_set_rgb'',
                                    params = [PInt (convert_rgb r g b), PStr ''smooth'',
                                              PInt 500]\<rparr>
                                   \<lparr>next_id = k, trace = []\<rparr>)))"
    using process_sends_byte_colors by blast
  show ?thesis
    using mean grab b pass run by blast
qed

theorem calculate_average_rgb_in_byte_range_witness:
  "\<exists>r g b. calculate_average_rgb [(3, (255, 0, 0)), (1, (0, 0, 0))] = Inr (r, g, b)
     \<and> fst (get_color (Inr [(3, (255, 0, 0)), (1, (0, 0, 0))]) initial_world) = Inr (r, g, b)
     \<and> 0 \<le> r \<and> r \<le> 255 \<and> 0 \<le> g \<and> g \<le> 255 \<and> 0 \<le> b \<and> b \<le> 255
     \<and> Send (as_bytes \<lparr>id' = 0, method = ''bg_set_rgb'',
                       params = [PInt (convert_rgb r g b), PStr ''smooth'', PInt 500]\<rparr>
                      \<lparr>next_id = 0, trace = []\<rparr>)
         \<in> set (trace (snd (cycle example_ambilight served_cycle initial_world)))
     \<and> Send (as_bytes \<lparr>id' = 0, method = ''bg_set_rgb'',
                       params = [PInt (convert_rgb r g b), PStr ''smooth'', PInt 500]\<rparr>
                      \<lparr>next_id = 0, trace = []\<rparr>)
         \<in> set (trace (snd (snd (process example_ambilight [served_cycle] initial_world))))"
proof -
  let ?cs = "[(3, (255, 0, 0)), (1, (0, 0, 0))] :: color_counts"
  let ?w' = "snd (cycle example_ambilight served_cycle initial_world)"
  have ne: "?cs \<noteq> []" by simp
  have rng: "\<forall>(n, r, g, b) \<in> set ?cs.
               0 \<le> r \<and> r \<le> 255 \<and> 0 \<le> g \<and> g \<le> 255 \<and> 0 \<le> b \<and> b \<le> 255"
    by simp
  have sc: "screen served_cycle = Inr ?cs" by (simp add: served_cycle_def)
  have nt: "net served_cycle = SendTakes 200" by (simp add: served_cycle_def)
  obtain r g b where mean: "calculate_average_rgb ?cs = Inr (r, g, b)"
    and grab: "fst (get_color (Inr ?cs) initial_world) = Inr (r, g, b)"
    and b: "0 \<le> r \<and> r \<le> 255 \<and> 0 \<le> g \<and> g \<le> 255 \<and> 0 \<le> b \<and> b \<le> 255"
    and pass: "let command = \<lparr>id' = next_id initial_world + 1, method = ''bg_set_rgb'',
                                 params = [PInt (convert_rgb r g b), PStr ''smooth'', PInt 500]\<rparr>;
                     w' = snd (cycle example_ambilight served_cycle initial_world);
                     opened = trace initial_world @ [Screenshot, Socket,
                                Connect (ip (lamp_controller example_ambilight))
                                        (port (lamp_controller example_ambilight))];
                     delta = t_end served_cycle - t_start served_cycle
                 in next_id w' = next_id initial_world + 1
                    \<and> (case net served_cycle of
                          ConnectRaises e \<Rightarrow> trace w' = opened
                        | SendRaises e \<Rightarrow>
                            trace w' = opened @ [Send (as_bytes command w'), Close]
                        | SendTakes n \<Rightarrow>
                            trace w' = opened @ [Send (as_bytes command w'), Close,
                                         LogDebug (int (min n (length (as_bytes command w'))))]
                                       @ (if delta < refresh_rate example_ambilight
                                          then [Sleep (refresh_rate example_ambilight - delta)]
                                          else []))"
    using calculate_average_rgb_in_byte_range [OF ne rng, of initial_world] sc by blast
  let ?command = "\<lparr>id' = 0, method = ''bg_set_rgb'',
                    params = [PInt (convert_rgb r g b), PStr ''smooth'', PInt 500]\<rparr>"
  have id: "next_id ?w' = 0"
    using pass by (simp add: Let_def initial_world_def)
  have "Send (as_bytes ?command ?w') \<in> set (trace ?w')"
    using pass by (simp add: Let_def nt initial_world_def)
  moreover have "as_bytes ?command ?w' = as_bytes ?command \<lparr>next_id = 0, trace = []\<rparr>"
    using as_bytes_next_id [of ?command ?w'] id by simp
  ultimately have one: "Send (as_bytes ?command \<lparr>next_id = 0, trace = []\<rparr>) \<in> set (trace ?w')"
    by simp
  have "snd (snd (process example_ambilight [served_cycle] initial_world)) = ?w'"
    unfolding served_step by (simp only: snd_conv)
  then have run: "Send (as_bytes ?command \<lparr>next_id = 0, trace = []\<rparr>)
                    \<in> set (trace (snd (snd (process example_ambilight [served_cycle] initial_world))))"
    using one by simp
  show ?thesis
    using mean grab b one run by blast
qed

end
